theory Spec2Isabelle
  imports Main "HOL-Library.Word"
begin

section \<open>many-color: hex colours to solid PNG images\<close>

text \<open>
  A shallow embedding of \<^verbatim>\<open>many-color.go\<close>. Go strings are byte sequences, so a
  string is a \<^typ>\<open>char list\<close>, one \<^typ>\<open>char\<close> per byte. The file holds two
  revisions of the program; the definitions of the second one carry the suffix
  \<^verbatim>\<open>_alt\<close> where it differs from the first.
\<close>

subsection \<open>Platform and errors\<close>

text \<open>
  Go's \<^verbatim>\<open>int\<close> is 32 or 64 bits wide (\<^verbatim>\<open>strconv.IntSize\<close>); the width
  decides when \<^verbatim>\<open>strconv\<close> reports a range error.
\<close>

datatype platform = Bits32 | Bits64

fun IntSize :: "platform \<Rightarrow> nat" where
  "IntSize Bits32 = 32"
| "IntSize Bits64 = 64"

text \<open>
  The error values of the program: the two \<^verbatim>\<open>errors.New\<close> of the parsers, the two
  \<^verbatim>\<open>strconv\<close> errors, the three \<^verbatim>\<open>exitf\<close> messages of the second revision, and
  the errors of the operating system and of the PNG encoder.
\<close>

datatype error =
    NotAHexColor
  | InvalidSize
  | ErrSyntax
  | ErrRange
  | FailedToParseSize
  | FailedToParseWidth
  | FailedToParseHeight
  | PipeInputInvalid
  | OpenError
  | EncodeError
  | CloseError

subsection \<open>The library functions the parsers call\<close>

text \<open>Character classes of the regular expressions, on bytes.\<close>

definition in_range :: "char \<Rightarrow> char \<Rightarrow> char \<Rightarrow> bool" where
  "in_range lo hi c \<longleftrightarrow> (of_char lo :: nat) \<le> of_char c \<and> (of_char c :: nat) \<le> of_char hi"

text \<open>\<^verbatim>\<open>[0-9a-f]\<close>\<close>

definition cls_hex :: "char \<Rightarrow> bool" where
  "cls_hex c \<longleftrightarrow> in_range CHR ''0'' CHR ''9'' c \<or> in_range CHR ''a'' CHR ''f'' c"

text \<open>\<^verbatim>\<open>[0-9]\<close> and \<^verbatim>\<open>[1-9]\<close>\<close>

definition cls_digit :: "char \<Rightarrow> bool" where
  "cls_digit c \<longleftrightarrow> in_range CHR ''0'' CHR ''9'' c"

definition cls_pos_digit :: "char \<Rightarrow> bool" where
  "cls_pos_digit c \<longleftrightarrow> in_range CHR ''1'' CHR ''9'' c"

text \<open>
  \<^verbatim>\<open>strconv.ParseUint(s, base, bitSize)\<close> for an explicit base (no prefix, no
  underscores): the digit of a byte, then the loop over the bytes. A byte that is no
  digit, or a digit not below the base, is a syntax error with value 0; a value above
  \<^verbatim>\<open>maxVal\<close> is a range error with value \<^verbatim>\<open>maxVal\<close>.
\<close>

definition digit_of :: "char \<Rightarrow> nat option" where
  "digit_of c =
     (if in_range CHR ''0'' CHR ''9'' c then Some (of_char c - of_char CHR ''0'')
      else if in_range CHR ''a'' CHR ''z'' c then Some (of_char c - of_char CHR ''a'' + 10)
      else if in_range CHR ''A'' CHR ''Z'' c then Some (of_char c - of_char CHR ''A'' + 10)
      else None)"

fun ParseUint_loop :: "nat \<Rightarrow> nat \<Rightarrow> string \<Rightarrow> nat \<Rightarrow> nat \<times> error option" where
  "ParseUint_loop base maxVal [] n = (n, None)"
| "ParseUint_loop base maxVal (c # cs) n =
     (case digit_of c of
        None \<Rightarrow> (0, Some ErrSyntax)
      | Some d \<Rightarrow>
          if d \<ge> base then (0, Some ErrSyntax)
          else if n * base + d > maxVal then (maxVal, Some ErrRange)
          else ParseUint_loop base maxVal cs (n * base + d))"

definition ParseUint :: "string \<Rightarrow> nat \<Rightarrow> nat \<Rightarrow> nat \<times> error option" where
  "ParseUint s base bitSize =
     (if s = [] then (0, Some ErrSyntax)
      else ParseUint_loop base (2 ^ bitSize - 1) s 0)"

text \<open>
  \<^verbatim>\<open>strconv.ParseInt(s, base, bitSize)\<close>: an optional sign, then \<^verbatim>\<open>ParseUint\<close>
  at 64 bits; \<^verbatim>\<open>bitSize = 0\<close> stands for the width of \<^verbatim>\<open>int\<close>. The value is
  returned beside the error, since \<^verbatim>\<open>parseHex\<close> keeps the value and drops the error.
\<close>

definition ParseInt :: "platform \<Rightarrow> string \<Rightarrow> nat \<Rightarrow> nat \<Rightarrow> int \<times> error option" where
  "ParseInt p s0 base bitSize0 =
     (if s0 = [] then (0, Some ErrSyntax)
      else
        let neg = (hd s0 = CHR ''-'');
            s = (if hd s0 = CHR ''+'' \<or> hd s0 = CHR ''-'' then tl s0 else s0);
            (un, err) = ParseUint s base 64
        in if err = Some ErrSyntax then (0, err)
           else
             let bitSize = (if bitSize0 = 0 then IntSize p else bitSize0);
                 cutoff = (2::nat) ^ (bitSize - 1)
             in if \<not> neg \<and> un \<ge> cutoff then (int cutoff - 1, Some ErrRange)
                else if neg \<and> un > cutoff then (- int cutoff, Some ErrRange)
                else (if neg then - int un else int un, None))"

text \<open>
  \<^verbatim>\<open>strconv.Atoi(s)\<close> is \<^verbatim>\<open>ParseInt(s, 10, 0)\<close> converted to \<^verbatim>\<open>int\<close> (its fast
  path for short strings computes the same value and the same syntax errors).
\<close>

definition Atoi :: "platform \<Rightarrow> string \<Rightarrow> int \<times> error option" where
  "Atoi p s = ParseInt p s 10 0"

text \<open>\<^verbatim>\<open>strings.TrimLeft(s, cutset)\<close> for a cutset of ASCII bytes.\<close>

definition TrimLeft :: "string \<Rightarrow> string \<Rightarrow> string" where
  "TrimLeft s cutset = dropWhile (\<lambda>c. c \<in> set cutset) s"

subsection \<open>The colour patterns\<close>

text \<open>
  \<^verbatim>\<open>FindStringSubmatch\<close> of a compiled pattern returns the whole match followed by
  the groups, or \<^verbatim>\<open>nil\<close>, modelled as the empty list (\<^verbatim>\<open>len(nil) = 0\<close>). Both
  colour patterns are anchored at both ends and every group has a fixed width, so a
  string matches when it has the right length and every byte is in \<^verbatim>\<open>[0-9a-f]\<close>.

  \<^verbatim>\<open>^([0-9a-f][0-9a-f])([0-9a-f][0-9a-f])([0-9a-f][0-9a-f])$\<close>
\<close>

definition colorRegex_0 :: "string \<Rightarrow> string list" where
  "colorRegex_0 s =
     (if length s = 6 \<and> list_all cls_hex s
      then [s, take 2 s, take 2 (drop 2 s), take 2 (drop 4 s)] else [])"

text \<open>\<^verbatim>\<open>^([0-9a-f])([0-9a-f])([0-9a-f])$\<close>\<close>

definition colorRegex_1 :: "string \<Rightarrow> string list" where
  "colorRegex_1 s =
     (if length s = 3 \<and> list_all cls_hex s
      then [s, take 1 s, take 1 (drop 1 s), take 1 (drop 2 s)] else [])"

definition colorRegex :: "(string \<Rightarrow> string list) list" where
  "colorRegex = [colorRegex_0, colorRegex_1]"

subsection \<open>Colours and the hex parser\<close>

text \<open>\<^verbatim>\<open>color.RGBA\<close>: four \<^verbatim>\<open>uint8\<close> channels.\<close>

record RGBA =
  R :: "8 word"
  G :: "8 word"
  B :: "8 word"
  A :: "8 word"

text \<open>\<^verbatim>\<open>type Hex struct { color.Color; Name string }\<close>\<close>

record Hex =
  Color :: RGBA
  Name :: string

text \<open>
  The first loop of \<^verbatim>\<open>parseHex\<close>: try the patterns in order, stop at the first one
  that yields four submatches; otherwise keep the result of the last one tried.
\<close>

fun findParts :: "(string \<Rightarrow> string list) list \<Rightarrow> string \<Rightarrow> string list \<Rightarrow> string list" where
  "findParts [] str hexParts = hexParts"
| "findParts (r # rs) str hexParts =
     (let hexParts' = r str
      in if length hexParts' = 4 then hexParts' else findParts rs str hexParts')"

text \<open>The body of the second loop: a one-byte group is doubled.\<close>

definition doubled :: "string \<Rightarrow> string" where
  "doubled str = (if length str = 1 then str @ str else str)"

definition parseHex :: "platform \<Rightarrow> string \<Rightarrow> error + Hex" where
  "parseHex p str =
     (let hexParts = findParts colorRegex str []
      in if length hexParts \<noteq> 4 then Inl NotAHexColor
         else
           let strs = map doubled (tl hexParts);
               ints = map (\<lambda>s. (word_of_int (fst (ParseInt p s 16 0)) :: 8 word)) strs
           in Inr \<lparr> Color = \<lparr> R = ints ! 0, G = ints ! 1, B = ints ! 2, A = 255 \<rparr>,
                    Name = concat strs \<rparr>)"

subsection \<open>The size patterns and the size parsers\<close>

record Size =
  Width :: int
  Height :: int

text \<open>
  \<^verbatim>\<open>([1-9][0-9]*)\<close> at the start of a string: the group and what follows it. The
  star is greedy, and whatever follows the group in the size patterns (an \<^verbatim>\<open>x\<close>, or
  the end of the text) is no digit, so a shorter run of digits can never lead to a match
  where the longest one does not.
\<close>

definition number :: "string \<Rightarrow> (string \<times> string) option" where
  "number s =
     (case s of
        [] \<Rightarrow> None
      | c # cs \<Rightarrow>
          if cls_pos_digit c then Some (c # takeWhile cls_digit cs, dropWhile cls_digit cs)
          else None)"

text \<open>
  \<^verbatim>\<open>([1-9][0-9]*)x([1-9][0-9]*)\<close> at the start of a string: the submatches (whole
  match, first group, second group) and the unmatched rest.
\<close>

definition sizeAt :: "string \<Rightarrow> (string list \<times> string) option" where
  "sizeAt s =
     (case number s of
        None \<Rightarrow> None
      | Some (g1, r1) \<Rightarrow>
          (case r1 of
             [] \<Rightarrow> None
           | c # r2 \<Rightarrow>
               if c = CHR ''x'' then
                 (case number r2 of
                    None \<Rightarrow> None
                  | Some (g2, rest) \<Rightarrow> Some ([g1 @ CHR ''x'' # g2, g1, g2], rest))
               else None))"

text \<open>
  First revision, \<^verbatim>\<open>^([1-9][0-9]*)x([1-9][0-9]*)$\<close>: the match starts at the first
  byte and must reach the end of the text.
\<close>

definition sizeRegex :: "string \<Rightarrow> string list" where
  "sizeRegex s =
     (case sizeAt s of
        None \<Rightarrow> []
      | Some (m, rest) \<Rightarrow> if rest = [] then m else [])"

text \<open>
  Second revision, \<^verbatim>\<open>([1-9][0-9]*)x([1-9][0-9]*)\<close>: the leftmost position where the
  pattern matches, anything may come before and after.
\<close>

fun sizeRegex_alt :: "string \<Rightarrow> string list" where
  "sizeRegex_alt [] = []"
| "sizeRegex_alt (c # cs) =
     (case sizeAt (c # cs) of
        None \<Rightarrow> sizeRegex_alt cs
      | Some (m, rest) \<Rightarrow> m)"

definition parseSize :: "platform \<Rightarrow> string \<Rightarrow> error + Size" where
  "parseSize p str =
     (let s = sizeRegex str
      in if length s \<noteq> 3 then Inl InvalidSize
         else
           (case Atoi p (s ! 1) of
              (w, Some err) \<Rightarrow> Inl err
            | (w, None) \<Rightarrow>
                (case Atoi p (s ! 2) of
                   (h, Some err) \<Rightarrow> Inl err
                 | (h, None) \<Rightarrow> Inr \<lparr> Width = w, Height = h \<rparr>)))"

text \<open>
  The second revision parses the size inside \<^verbatim>\<open>main\<close>: each failure ends the process
  through \<^verbatim>\<open>exitf\<close>, otherwise \<^verbatim>\<open>width\<close> and \<^verbatim>\<open>height\<close> are set.
\<close>

definition main_alt_size :: "platform \<Rightarrow> string \<Rightarrow> error + Size" where
  "main_alt_size p sizeFlag =
     (let s = sizeRegex_alt sizeFlag
      in if length s \<noteq> 3 then Inl FailedToParseSize
         else
           (case Atoi p (s ! 1) of
              (width, Some err) \<Rightarrow> Inl FailedToParseWidth
            | (width, None) \<Rightarrow>
                (case Atoi p (s ! 2) of
                   (height, Some err) \<Rightarrow> Inl FailedToParseHeight
                 | (height, None) \<Rightarrow> Inr \<lparr> Width = width, Height = height \<rparr>)))"

subsection \<open>Files, the console and the raster\<close>

type_synonym byte = "8 word"

text \<open>\<^verbatim>\<open>image.RGBA\<close>: the rectangle of the raster and its pixels.\<close>

record Image =
  Bounds :: "int \<times> int \<times> int \<times> int"
  Pix :: "RGBA list"

text \<open>
  What may go wrong in the environment while the image file of a given name is produced:
  the operating system has no memory for the raster, refuses to open the file, fails a
  write after some bytes, or fails to close the file. The environment also holds the PNG
  encoder of the library, a function from the raster to its encoding or to an error, and
  whether closing the input fails.
\<close>

datatype fault = AllocFails | OpenFails | WriteFails nat | CloseFails

record env =
  png :: "Image \<Rightarrow> error + byte list"
  faults :: "string \<Rightarrow> fault option"
  inputCloseFails :: bool

datatype message =
    Skipping string error
  | Generated int
  | Mapping string string
  | Fatal error
  | ErrorUsage error

record world =
  files :: "string \<Rightarrow> byte list option"
  stdout :: "message list"

definition print :: "message \<Rightarrow> world \<Rightarrow> world" where
  "print m w = w \<lparr> stdout := stdout w @ [m] \<rparr>"

text \<open>
  A call returns, or ends the process with an exit code (\<^verbatim>\<open>os.Exit\<close>), or panics.
\<close>

datatype 'a proc = Return 'a world | Exit int world | Panic world

definition maxInt :: "platform \<Rightarrow> int" where
  "maxInt p = 2 ^ (IntSize p - 1) - 1"


text \<open>
  \<^verbatim>\<open>image.Rect(x0, y0, x1, y1)\<close> orders its corners; a rectangle is kept as
  \<^verbatim>\<open>(Min.X, Min.Y, Max.X, Max.Y)\<close>.
\<close>

definition Rect :: "int \<Rightarrow> int \<Rightarrow> int \<Rightarrow> int \<Rightarrow> int \<times> int \<times> int \<times> int" where
  "Rect x0 y0 x1 y1 = (min x0 x1, min y0 y1, max x0 x1, max y0 y1)"

text \<open>
  The largest block the runtime can address (\<^verbatim>\<open>maxAlloc\<close>: 48 address bits on the
  64-bit platforms, the whole address space on the 32-bit ones).
\<close>

fun maxAlloc :: "platform \<Rightarrow> int" where
  "maxAlloc Bits32 = 2 ^ 32 - 1"
| "maxAlloc Bits64 = 2 ^ 48"

text \<open>
  \<^verbatim>\<open>image.NewRGBA(r)\<close>: a raster of transparent black pixels over the rectangle,
  kept row by row. The buffer has four bytes per pixel. The library panics when its
  length does not fit an \<^verbatim>\<open>int\<close>, and \<^verbatim>\<open>make\<close> panics when the length is beyond
  what the runtime can address. When the operating system does not provide the memory
  (\<^verbatim>\<open>oom\<close>), the runtime ends the process with code 2 and no deferred call runs.
\<close>

definition NewRGBA :: "platform \<Rightarrow> bool \<Rightarrow> int \<times> int \<times> int \<times> int \<Rightarrow> world \<Rightarrow> Image proc" where
  "NewRGBA p oom r w =
     (case r of (x0, y0, x1, y1) \<Rightarrow>
        if 4 * (x1 - x0) * (y1 - y0) > maxInt p \<or> 4 * (x1 - x0) * (y1 - y0) > maxAlloc p
        then Panic w
        else if oom then Exit 2 w
        else Return \<lparr> Bounds = r,
                      Pix = replicate (nat ((x1 - x0) * (y1 - y0))) \<lparr> R = 0, G = 0, B = 0, A = 0 \<rparr> \<rparr> w)"

text \<open>
  \<^verbatim>\<open>img.Set(x, y, c)\<close>: nothing happens outside the rectangle. The colour model of
  the raster turns the \<^verbatim>\<open>Hex\<close> value into its embedded \<^verbatim>\<open>color.RGBA\<close> (each
  channel goes to 16 bits and back), which is the colour passed here.
\<close>

definition Set_pixel :: "Image \<Rightarrow> int \<Rightarrow> int \<Rightarrow> RGBA \<Rightarrow> Image" where
  "Set_pixel img x y c =
     (case Bounds img of (x0, y0, x1, y1) \<Rightarrow>
        if x0 \<le> x \<and> x < x1 \<and> y0 \<le> y \<and> y < y1
        then img \<lparr> Pix := (Pix img) [nat ((y - y0) * (x1 - x0) + (x - x0)) := c] \<rparr>
        else img)"

text \<open>The two nested loops of \<^verbatim>\<open>generateImage\<close>.\<close>

definition fill :: "Image \<Rightarrow> Size \<Rightarrow> RGBA \<Rightarrow> Image" where
  "fill img s c =
     fold (\<lambda>x img. fold (\<lambda>y img. Set_pixel img x y c) [0 .. Height s - 1] img)
       [0 .. Width s - 1] img"

text \<open>
  \<^verbatim>\<open>os.OpenFile(name, os.O_WRONLY|os.O_CREATE, 0644)\<close>: the file is created empty
  when it does not exist; an existing file is opened as it is, its content untouched
  (the flags do not include \<^verbatim>\<open>os.O_TRUNC\<close>). The handle is the name and the offset
  of the next write.
\<close>

definition OpenFile :: "env \<Rightarrow> string \<Rightarrow> world \<Rightarrow> (error + string \<times> nat) \<times> world" where
  "OpenFile e name w =
     (if faults e name = Some OpenFails then (Inl OpenError, w)
      else
        (case files w name of
           None \<Rightarrow> (Inr (name, 0), w \<lparr> files := (files w) (name := Some []) \<rparr>)
         | Some old \<Rightarrow> (Inr (name, 0), w)))"

text \<open>
  Writing \<^verbatim>\<open>bs\<close> at an offset replaces the bytes at these positions and extends the
  file when it is shorter; the bytes of the file beyond the written range stay.
\<close>

definition write_at :: "byte list \<Rightarrow> nat \<Rightarrow> byte list \<Rightarrow> byte list" where
  "write_at old off bs =
     take off old @ replicate (off - length old) 0 @ bs @ drop (off + length bs) old"

definition Write :: "string \<times> nat \<Rightarrow> byte list \<Rightarrow> world \<Rightarrow> (string \<times> nat) \<times> world" where
  "Write f bs w =
     (case f of (name, off) \<Rightarrow>
        ((name, off + length bs),
         w \<lparr> files := (files w) (name := Some (write_at (case files w name of None \<Rightarrow> [] | Some old \<Rightarrow> old) off bs)) \<rparr>))"

text \<open>
  \<^verbatim>\<open>png.Encode(f, img)\<close> writes the encoding of the raster to the file, from the
  offset of the handle on. When the encoder refuses the raster nothing is written; when
  a write fails, the bytes before the failure are in the file.
\<close>

definition Encode :: "env \<Rightarrow> string \<times> nat \<Rightarrow> Image \<Rightarrow> world \<Rightarrow> error option \<times> world" where
  "Encode e f img w =
     (case png e img of
        Inl err \<Rightarrow> (Some err, w)
      | Inr bs \<Rightarrow>
          (case faults e (fst f) of
             Some (WriteFails n) \<Rightarrow> (Some EncodeError, snd (Write f (take n bs) w))
           | _ \<Rightarrow> (None, snd (Write f bs w))))"

text \<open>\<^verbatim>\<open>c.Close()\<close> of an output file.\<close>

definition File_Close :: "env \<Rightarrow> string \<times> nat \<Rightarrow> error option" where
  "File_Close e f = (if faults e (fst f) = Some CloseFails then Some CloseError else None)"

text \<open>
  \<^verbatim>\<open>func Close(c io.Closer)\<close>: a failing close prints the error and ends the process
  with code 1. The argument is the result of \<^verbatim>\<open>c.Close()\<close>.
\<close>

definition Close :: "error option \<Rightarrow> world \<Rightarrow> unit proc" where
  "Close r w =
     (case r of
        Some err \<Rightarrow> Exit 1 (print (Fatal err) w)
      | None \<Rightarrow> Return () w)"

subsection \<open>First revision: the generator and the main loop\<close>

definition generateImage :: "platform \<Rightarrow> env \<Rightarrow> string \<Rightarrow> Size \<Rightarrow> world \<Rightarrow> error option proc" where
  "generateImage p e hex s w =
     (case parseHex p hex of
        Inl err \<Rightarrow> Return (Some err) w
      | Inr c \<Rightarrow>
          (case NewRGBA p (faults e (Name c @ ''.png'') = Some AllocFails)
                  (Rect 0 0 (Width s) (Height s)) w of
             Panic w0 \<Rightarrow> Panic w0
           | Exit code w0 \<Rightarrow> Exit code w0
           | Return img0 w0 \<Rightarrow>
               let img = fill img0 s (Color c)
               in (case OpenFile e (Name c @ ''.png'') w0 of
                     (Inl err, w1) \<Rightarrow> Return (Some err) w1
                   | (Inr f, w1) \<Rightarrow>
                       (case Encode e f img w1 of
                          (r, w2) \<Rightarrow>
                            (case Close (File_Close e f) w2 of
                               Return u w3 \<Rightarrow> Return r w3
                             | Exit code w3 \<Rightarrow> Exit code w3
                             | Panic w3 \<Rightarrow> Panic w3)))))"







subsection \<open>Second revision: the generator\<close>

text \<open>
  The second revision strips the \<^verbatim>\<open>#\<close> itself, prints the skip message itself, closes
  the file without looking at the result, drops the result of the encoder and prints the
  name of the file it wrote.
\<close>

definition generateImage_alt :: "platform \<Rightarrow> env \<Rightarrow> string \<Rightarrow> Size \<Rightarrow> world \<Rightarrow> unit proc" where
  "generateImage_alt p e rawHex s w =
     (let hex = TrimLeft rawHex ''#''
      in (case parseHex p hex of
            Inl err \<Rightarrow> Return () (print (Skipping hex err) w)
          | Inr c \<Rightarrow>
              (case NewRGBA p (faults e (Name c @ ''.png'') = Some AllocFails)
                      (Rect 0 0 (Width s) (Height s)) w of
                 Panic w0 \<Rightarrow> Panic w0
               | Exit code w0 \<Rightarrow> Exit code w0
               | Return img0 w0 \<Rightarrow>
                   let img = fill img0 s (Color c);
                       filename = Name c @ ''.png''
                   in (case OpenFile e filename w0 of
                         (Inl err, w1) \<Rightarrow> Return () (print (Skipping hex err) w1)
                       | (Inr f, w1) \<Rightarrow>
                           (case Encode e f img w1 of
                              (r, w2) \<Rightarrow> Return () (print (Mapping rawHex filename) w2))))))"

section \<open>The notions of the specification\<close>

text \<open>
  The lowercase hexadecimal digits, the value of a digit as its position among them, and
  the base-16 value of a digit string, most significant digit first.
\<close>

definition hexDigits :: string where
  "hexDigits = ''0123456789abcdef''"

definition isHexDigit :: "char \<Rightarrow> bool" where
  "isHexDigit c \<longleftrightarrow> c \<in> set hexDigits"

definition hexValue :: "char \<Rightarrow> nat" where
  "hexValue c = length (takeWhile (\<lambda>d. d \<noteq> c) hexDigits)"

definition base16 :: "string \<Rightarrow> nat" where
  "base16 ds = foldl (\<lambda>n d. 16 * n + hexValue d) 0 ds"

text \<open>
  A string matches \<^verbatim>\<open>^#?[0-9a-f]{n}$\<close> when, without its optional leading
  \<^verbatim>\<open>#\<close>, it consists of exactly \<^verbatim>\<open>n\<close> lowercase hexadecimal digits.
\<close>

definition stripHash :: "string \<Rightarrow> string" where
  "stripHash s = (case s of [] \<Rightarrow> [] | c # cs \<Rightarrow> if c = CHR ''#'' then cs else s)"

definition matchesHex :: "nat \<Rightarrow> string \<Rightarrow> bool" where
  "matchesHex n s \<longleftrightarrow> length (stripHash s) = n \<and> list_all isHexDigit (stripHash s)"

text \<open>
  A string matches \<^verbatim>\<open>^[0-9a-f]{n}$\<close>, the form the hex parser itself accepts, when
  it consists of exactly \<^verbatim>\<open>n\<close> lowercase hexadecimal digits.
\<close>

definition hexString :: "nat \<Rightarrow> string \<Rightarrow> bool" where
  "hexString n s \<longleftrightarrow> length s = n \<and> list_all isHexDigit s"

definition isUpperLetter :: "char \<Rightarrow> bool" where
  "isUpperLetter c \<longleftrightarrow> c \<in> set ''ABCDEFGHIJKLMNOPQRSTUVWXYZ''"



text \<open>
  The raster of the given size with every pixel set to one colour, and the world with no
  file and no output.
\<close>

definition flatRaster :: "Size \<Rightarrow> RGBA \<Rightarrow> Image" where
  "flatRaster s c =
     \<lparr> Bounds = (0, 0, Width s, Height s), Pix = replicate (nat (Width s * Height s)) c \<rparr>"









text \<open>The content of a file after \<^verbatim>\<open>bs\<close> was written over its start.\<close>

definition written :: "byte list \<Rightarrow> byte list option \<Rightarrow> byte list" where
  "written bs before = bs @ drop (length bs) (case before of None \<Rightarrow> [] | Some old \<Rightarrow> old)"

section \<open>Digits and their values\<close>

lemma isHexDigit_cases:
  "isHexDigit c \<longleftrightarrow> c = CHR ''0'' \<or> c = CHR ''1'' \<or> c = CHR ''2''
      \<or> c = CHR ''3'' \<or> c = CHR ''4'' \<or> c = CHR ''5''
      \<or> c = CHR ''6'' \<or> c = CHR ''7'' \<or> c = CHR ''8''
      \<or> c = CHR ''9'' \<or> c = CHR ''a'' \<or> c = CHR ''b''
      \<or> c = CHR ''c'' \<or> c = CHR ''d'' \<or> c = CHR ''e''
      \<or> c = CHR ''f''"
  by (simp add: isHexDigit_def hexDigits_def)

text \<open>The class \<^verbatim>\<open>[0-9a-f]\<close> of the patterns holds exactly the sixteen digits.\<close>

lemma cls_hex_isHexDigit:
  assumes "cls_hex c"
  shows "isHexDigit c"
proof -
  define n :: nat where "n = of_char c"
  have "n \<in> {48..57} \<union> {97..102}"
    using assms by (auto simp: cls_hex_def in_range_def n_def)
  then have "n = 48 \<or> n = 49 \<or> n = 50 \<or> n = 51 \<or> n = 52 \<or> n = 53 \<or> n = 54 \<or> n = 55
      \<or> n = 56 \<or> n = 57 \<or> n = 97 \<or> n = 98 \<or> n = 99 \<or> n = 100 \<or> n = 101 \<or> n = 102"
    by (simp only: Un_iff atLeastAtMost_iff) arith
  then have "n = of_char CHR ''0'' \<or> n = of_char CHR ''1'' \<or> n = of_char CHR ''2''
      \<or> n = of_char CHR ''3'' \<or> n = of_char CHR ''4'' \<or> n = of_char CHR ''5''
      \<or> n = of_char CHR ''6'' \<or> n = of_char CHR ''7'' \<or> n = of_char CHR ''8''
      \<or> n = of_char CHR ''9'' \<or> n = of_char CHR ''a'' \<or> n = of_char CHR ''b''
      \<or> n = of_char CHR ''c'' \<or> n = of_char CHR ''d'' \<or> n = of_char CHR ''e''
      \<or> n = of_char CHR ''f''"
    by simp
  then show ?thesis
    unfolding n_def of_char_eq_iff isHexDigit_cases .
qed

lemma isHexDigit_cls_hex: "isHexDigit c \<Longrightarrow> cls_hex c"
  unfolding isHexDigit_cases
  by (elim disjE) (simp_all add: cls_hex_def in_range_def)

lemma cls_hex_iff: "cls_hex c \<longleftrightarrow> isHexDigit c"
  using cls_hex_isHexDigit isHexDigit_cls_hex by blast

lemma list_all_cls_hex: "list_all cls_hex s \<longleftrightarrow> list_all isHexDigit s"
  by (induction s) (simp_all add: cls_hex_iff)

lemma digit_of_hex:
  assumes "isHexDigit c"
  shows "digit_of c = Some (hexValue c) \<and> hexValue c < 16"
  using assms unfolding isHexDigit_cases
  by (elim disjE) (simp_all add: digit_of_def in_range_def hexValue_def hexDigits_def)

text \<open>
  On two lowercase hexadecimal digits \<^verbatim>\<open>strconv.ParseInt(_, 16, 0)\<close> returns their
  base-16 value, at most 255, and no error.
\<close>

lemma ParseInt_pair:
  assumes "isHexDigit a" "isHexDigit b"
  shows "ParseInt p [a, b] 16 0 = (int (base16 [a, b]), None)"
    and "base16 [a, b] \<le> 255"
proof -
  have a: "digit_of a = Some (hexValue a)" "hexValue a < 16"
    using digit_of_hex [OF assms(1)] by simp_all
  have b: "digit_of b = Some (hexValue b)" "hexValue b < 16"
    using digit_of_hex [OF assms(2)] by simp_all
  have ns: "a \<noteq> CHR ''+''" "a \<noteq> CHR ''-''"
    using assms(1) by (auto simp: isHexDigit_cases)
  show le: "base16 [a, b] \<le> 255"
    using a(2) b(2) by (simp add: base16_def)
  have v: "hexValue a * 16 + hexValue b = base16 [a, b]"
    by (simp add: base16_def)
  have "ParseUint [a, b] 16 64 = (base16 [a, b], None)"
    using a b le by (simp add: ParseUint_def v)
  moreover have "base16 [a, b] < 2 ^ (IntSize p - 1)"
    using le by (cases p) simp_all
  ultimately show "ParseInt p [a, b] 16 0 = (int (base16 [a, b]), None)"
    using ns by (simp add: ParseInt_def)
qed

section \<open>Lists of a known length\<close>

lemma length_6E:
  assumes "length s = 6"
  obtains a b c d e f where "s = [a, b, c, d, e, f]"
  using assms by (auto simp: length_Suc_conv eval_nat_numeral)

lemma length_3E:
  assumes "length s = 3"
  obtains a b c where "s = [a, b, c]"
  using assms by (auto simp: length_Suc_conv eval_nat_numeral)

section \<open>The hex parser\<close>

text \<open>What \<^verbatim>\<open>parseHex\<close> returns on six digits, on three digits, and on anything else.\<close>

lemma parseHex_long:
  assumes "list_all isHexDigit [a, b, c, d, e, f]"
  shows "parseHex p [a, b, c, d, e, f] =
     Inr \<lparr> Color = \<lparr> R = of_nat (base16 [a, b]), G = of_nat (base16 [c, d]),
                     B = of_nat (base16 [e, f]), A = 255 \<rparr>,
            Name = [a, b, c, d, e, f] \<rparr>"
proof -
  have h: "isHexDigit a" "isHexDigit b" "isHexDigit c" "isHexDigit d" "isHexDigit e" "isHexDigit f"
    using assms by simp_all
  have m: "findParts colorRegex [a, b, c, d, e, f] [] = [[a, b, c, d, e, f], [a, b], [c, d], [e, f]]"
    using assms by (simp add: colorRegex_def colorRegex_0_def cls_hex_iff)
  show ?thesis
    by (simp add: parseHex_def m doubled_def ParseInt_pair(1) h)
qed

lemma parseHex_short:
  assumes "list_all isHexDigit [a, b, c]"
  shows "parseHex p [a, b, c] =
     Inr \<lparr> Color = \<lparr> R = of_nat (base16 [a, a]), G = of_nat (base16 [b, b]),
                     B = of_nat (base16 [c, c]), A = 255 \<rparr>,
            Name = [a, a, b, b, c, c] \<rparr>"
proof -
  have h: "isHexDigit a" "isHexDigit b" "isHexDigit c"
    using assms by simp_all
  have m: "findParts colorRegex [a, b, c] [] = [[a, b, c], [a], [b], [c]]"
    using assms by (simp add: colorRegex_def colorRegex_0_def colorRegex_1_def cls_hex_iff)
  show ?thesis
    by (simp add: parseHex_def m doubled_def ParseInt_pair(1) h)
qed

lemma parseHex_neither:
  assumes "\<not> (length s = 6 \<and> list_all isHexDigit s)" "\<not> (length s = 3 \<and> list_all isHexDigit s)"
  shows "parseHex p s = Inl NotAHexColor"
proof -
  have "findParts colorRegex s [] = []"
    using assms by (auto simp: colorRegex_def colorRegex_0_def colorRegex_1_def list_all_cls_hex)
  then show ?thesis by (simp add: parseHex_def)
qed

lemma parseHex_Inr_cases:
  assumes "parseHex p s = Inr c"
  shows "(length s = 6 \<and> list_all isHexDigit s) \<or> (length s = 3 \<and> list_all isHexDigit s)"
  using assms parseHex_neither [of s p] by auto

text \<open>
  \<^verbatim>\<open>main\<close> strips every leading \<^verbatim>\<open>#\<close>; on a string with at most one, followed
  by a digit, this removes just the optional one.
\<close>

lemma TrimLeft_hash:
  assumes "matchesHex n s"
  shows "TrimLeft s ''#'' = stripHash s"
proof (cases "stripHash s")
  case Nil
  then show ?thesis by (cases s) (auto simp: stripHash_def TrimLeft_def split: if_splits)
next
  case (Cons d ds)
  then have "isHexDigit d" using assms by (simp add: matchesHex_def)
  then have "d \<noteq> CHR ''#''" by (auto simp: isHexDigit_cases)
  then show ?thesis using Cons
    by (cases s) (auto simp: stripHash_def TrimLeft_def split: if_splits)
qed

text \<open>A value up to 255 fits a \<^verbatim>\<open>uint8\<close> channel unchanged.\<close>

lemma unat_channel:
  assumes "n \<le> 255"
  shows "unat (of_nat n :: 8 word) = n"
  using assms by (simp add: unat_of_nat)

text \<open>
  Claim C1. For every input string matching \<^verbatim>\<open>^#?[0-9a-f]{6}$\<close>, after the leading
  \<^verbatim>\<open>#\<close> is stripped the hex parser succeeds; the red, green and blue channels of the
  colour it returns are the base-16 values of the first, second and third pair of digits,
  its alpha is 255, and its canonical string is the six digits of the input.
\<close>

theorem parseHex_six_digits:
  assumes "matchesHex 6 s"
  shows "\<exists>c. parseHex p (TrimLeft s ''#'') = Inr c
      \<and> unat (R (Color c)) = base16 (take 2 (stripHash s))
      \<and> unat (G (Color c)) = base16 (take 2 (drop 2 (stripHash s)))
      \<and> unat (B (Color c)) = base16 (take 2 (drop 4 (stripHash s)))
      \<and> A (Color c) = 255
      \<and> Name c = stripHash s"
proof -
  from assms have len: "length (stripHash s) = 6" and hex: "list_all isHexDigit (stripHash s)"
    by (simp_all add: matchesHex_def)
  from len obtain a b c d e f where ds: "stripHash s = [a, b, c, d, e, f]"
    by (rule length_6E)
  have h: "isHexDigit a" "isHexDigit b" "isHexDigit c" "isHexDigit d" "isHexDigit e" "isHexDigit f"
    using hex ds by simp_all
  have t: "TrimLeft s ''#'' = [a, b, c, d, e, f]"
    using TrimLeft_hash [OF assms] ds by simp
  have p: "parseHex p [a, b, c, d, e, f] =
     Inr \<lparr> Color = \<lparr> R = of_nat (base16 [a, b]), G = of_nat (base16 [c, d]),
                     B = of_nat (base16 [e, f]), A = 255 \<rparr>,
            Name = [a, b, c, d, e, f] \<rparr>"
    using hex ds parseHex_long [of a b c d e f p] by simp
  show ?thesis
    unfolding t ds p
    by (simp add: unat_channel ParseInt_pair(2) h)
qed

theorem parseHex_six_digits_witness:
  "matchesHex 6 ''#a0b1c2'' \<and>
   (\<exists>c. parseHex Bits64 ''a0b1c2'' = Inr c
      \<and> unat (R (Color c)) = 160 \<and> unat (G (Color c)) = 177 \<and> unat (B (Color c)) = 194
      \<and> A (Color c) = 255 \<and> Name c = ''a0b1c2'')"
proof -
  have m: "matchesHex 6 ''#a0b1c2''"
    by (simp add: matchesHex_def stripHash_def isHexDigit_def hexDigits_def)
  show ?thesis
    using m parseHex_six_digits [OF m, of Bits64]
    by (simp add: TrimLeft_def stripHash_def base16_def hexValue_def hexDigits_def)
qed

text \<open>
  Claim C2. For every input string matching \<^verbatim>\<open>^#?[0-9a-f]{3}$\<close> (such a string does
  not match the six-digit form) the hex parser doubles each digit before decoding: the
  canonical string is \<^verbatim>\<open>d1d1d2d2d3d3\<close>, each channel is the base-16 value of its
  doubled digit, and alpha is 255. In particular \<^verbatim>\<open>abc\<close> yields the canonical string
  \<^verbatim>\<open>aabbcc\<close> with R = 0xAA, G = 0xBB, B = 0xCC and alpha 255.
\<close>

theorem parseHex_three_digits:
  assumes "matchesHex 3 s"
  shows "(\<exists>c. parseHex p (TrimLeft s ''#'') = Inr c
      \<and> Name c = concat (map (\<lambda>d. [d, d]) (stripHash s))
      \<and> unat (R (Color c)) = base16 [stripHash s ! 0, stripHash s ! 0]
      \<and> unat (G (Color c)) = base16 [stripHash s ! 1, stripHash s ! 1]
      \<and> unat (B (Color c)) = base16 [stripHash s ! 2, stripHash s ! 2]
      \<and> A (Color c) = 255)
    \<and> \<not> matchesHex 6 s
    \<and> parseHex p ''abc'' =
        Inr \<lparr> Color = \<lparr> R = 0xAA, G = 0xBB, B = 0xCC, A = 255 \<rparr>, Name = ''aabbcc'' \<rparr>"
proof -
  from assms have len: "length (stripHash s) = 3" and hex: "list_all isHexDigit (stripHash s)"
    by (simp_all add: matchesHex_def)
  from len obtain a b c where ds: "stripHash s = [a, b, c]"
    by (rule length_3E)
  have h: "isHexDigit a" "isHexDigit b" "isHexDigit c"
    using hex ds by simp_all
  have t: "TrimLeft s ''#'' = [a, b, c]"
    using TrimLeft_hash [OF assms] ds by simp
  have p: "parseHex p [a, b, c] =
     Inr \<lparr> Color = \<lparr> R = of_nat (base16 [a, a]), G = of_nat (base16 [b, b]),
                     B = of_nat (base16 [c, c]), A = 255 \<rparr>,
            Name = [a, a, b, b, c, c] \<rparr>"
    using hex ds parseHex_short [of a b c p] by simp
  have gen: "\<exists>c. parseHex p (TrimLeft s ''#'') = Inr c
      \<and> Name c = concat (map (\<lambda>d. [d, d]) (stripHash s))
      \<and> unat (R (Color c)) = base16 [stripHash s ! 0, stripHash s ! 0]
      \<and> unat (G (Color c)) = base16 [stripHash s ! 1, stripHash s ! 1]
      \<and> unat (B (Color c)) = base16 [stripHash s ! 2, stripHash s ! 2]
      \<and> A (Color c) = 255"
    unfolding t ds p
    by (simp add: unat_channel ParseInt_pair(2) h)
  have n6: "\<not> matchesHex 6 s"
    using len by (simp add: matchesHex_def)
  have abc: "list_all isHexDigit ''abc''"
    by (simp add: isHexDigit_cases)
  have ex: "parseHex p ''abc'' =
        Inr \<lparr> Color = \<lparr> R = 0xAA, G = 0xBB, B = 0xCC, A = 255 \<rparr>, Name = ''aabbcc'' \<rparr>"
    unfolding parseHex_short [OF abc]
    by (simp add: base16_def hexValue_def hexDigits_def)
  show ?thesis using gen n6 ex by blast
qed

theorem parseHex_three_digits_witness:
  "matchesHex 3 ''#f00'' \<and>
   (\<exists>c. parseHex Bits32 ''f00'' = Inr c \<and> Name c = ''ff0000''
      \<and> unat (R (Color c)) = 255 \<and> unat (G (Color c)) = 0 \<and> unat (B (Color c)) = 0
      \<and> A (Color c) = 255)"
proof -
  have m: "matchesHex 3 ''#f00''"
    by (simp add: matchesHex_def stripHash_def isHexDigit_def hexDigits_def)
  show ?thesis
    using m parseHex_three_digits [OF m, of Bits32]
    by (simp add: TrimLeft_def stripHash_def base16_def hexValue_def hexDigits_def)
qed

text \<open>The result of a successful parse, read off the input.\<close>

lemma parseHex_Inr_long:
  assumes "parseHex p s = Inr c" "length s = 6"
  shows "list_all isHexDigit s \<and> Name c = s"
proof -
  from assms(2) obtain a b c' d e f where s: "s = [a, b, c', d, e, f]"
    by (rule length_6E)
  have hex: "list_all isHexDigit s"
    using parseHex_Inr_cases [OF assms(1)] assms(2) by simp
  then show ?thesis
    using assms(1) parseHex_long [of a b c' d e f p] unfolding s by auto
qed

lemma parseHex_Inr_short:
  assumes "parseHex p s = Inr c" "length s = 3"
  shows "list_all isHexDigit s \<and> Name c = concat (map (\<lambda>d. [d, d]) s)"
proof -
  from assms(2) obtain a b c' where s: "s = [a, b, c']"
    by (rule length_3E)
  have hex: "list_all isHexDigit s"
    using parseHex_Inr_cases [OF assms(1)] assms(2) by simp
  then show ?thesis
    using assms(1) parseHex_short [of a b c' p] unfolding s by auto
qed

lemma parseHex_doubled_fixed:
  assumes "list_all isHexDigit [a, b, c]"
  shows "parseHex p [a, a, b, b, c, c] = parseHex p [a, b, c]"
proof -
  have "list_all isHexDigit [a, a, b, b, c, c]" using assms by simp
  then show ?thesis
    using parseHex_long [of a a b b c c p] parseHex_short [OF assms, of p] by simp
qed

text \<open>
  Claim C3. For every input string on which the hex parser succeeds, the canonical string
  of the returned colour is exactly six characters long and every character is a lowercase
  hexadecimal digit (0-9 or a-f).
\<close>

theorem parseHex_name_canonical:
  assumes "parseHex p s = Inr c"
  shows "length (Name c) = 6 \<and> list_all isHexDigit (Name c)"
proof -
  from parseHex_Inr_cases [OF assms]
  consider (long) "length s = 6" | (short) "length s = 3" by blast
  then show ?thesis
  proof cases
    case long
    then show ?thesis using parseHex_Inr_long [OF assms] by simp
  next
    case short
    then obtain a b c' where s: "s = [a, b, c']" by (rule length_3E)
    then show ?thesis using parseHex_Inr_short [OF assms short] by simp
  qed
qed

theorem parseHex_name_canonical_witness:
  "parseHex Bits64 ''0af'' = Inr \<lparr> Color = \<lparr> R = 0, G = 0xAA, B = 0xFF, A = 255 \<rparr>, Name = ''00aaff'' \<rparr>
   \<and> length ''00aaff'' = 6 \<and> list_all isHexDigit ''00aaff''"
proof -
  have hex: "list_all isHexDigit ''0af''"
    by (simp add: isHexDigit_cases)
  have p: "parseHex Bits64 ''0af'' =
      Inr \<lparr> Color = \<lparr> R = 0, G = 0xAA, B = 0xFF, A = 255 \<rparr>, Name = ''00aaff'' \<rparr>"
    unfolding parseHex_short [OF hex]
    by (simp add: base16_def hexValue_def hexDigits_def)
  show ?thesis
    using p parseHex_name_canonical [OF p] by simp
qed

text \<open>
  Claim C4. The hex parser is round-trip stable: when it succeeds on an input with the
  colour \<^verbatim>\<open>c\<close>, it succeeds again on the canonical string of \<^verbatim>\<open>c\<close> and returns
  the same channels, the same alpha and the same canonical string.
\<close>

theorem parseHex_round_trip:
  assumes "parseHex p s = Inr c"
  shows "parseHex p (Name c) = Inr c"
proof -
  from parseHex_Inr_cases [OF assms]
  consider (long) "length s = 6" | (short) "length s = 3" by blast
  then show ?thesis
  proof cases
    case long
    then show ?thesis using parseHex_Inr_long [OF assms] assms by simp
  next
    case short
    then obtain a b c' where s: "s = [a, b, c']" by (rule length_3E)
    have hex: "list_all isHexDigit [a, b, c']"
      using parseHex_Inr_short [OF assms short] s by simp
    have "Name c = [a, a, b, b, c', c']"
      using parseHex_Inr_short [OF assms short] s by simp
    then show ?thesis
      using parseHex_doubled_fixed [OF hex, of p] assms s by simp
  qed
qed

theorem parseHex_round_trip_witness:
  "parseHex Bits64 ''0af'' = Inr \<lparr> Color = \<lparr> R = 0, G = 0xAA, B = 0xFF, A = 255 \<rparr>, Name = ''00aaff'' \<rparr>
   \<and> parseHex Bits64 ''00aaff'' =
       Inr \<lparr> Color = \<lparr> R = 0, G = 0xAA, B = 0xFF, A = 255 \<rparr>, Name = ''00aaff'' \<rparr>"
proof -
  have hex: "list_all isHexDigit ''0af''"
    by (simp add: isHexDigit_cases)
  have p: "parseHex Bits64 ''0af'' =
      Inr \<lparr> Color = \<lparr> R = 0, G = 0xAA, B = 0xFF, A = 255 \<rparr>, Name = ''00aaff'' \<rparr>"
    unfolding parseHex_short [OF hex]
    by (simp add: base16_def hexValue_def hexDigits_def)
  show ?thesis
    using p parseHex_round_trip [OF p] by simp
qed

lemma upper_not_hex: "isUpperLetter c \<Longrightarrow> \<not> isHexDigit c"
  unfolding isHexDigit_cases by (auto simp: isUpperLetter_def)

text \<open>
  Claim C5. For every string that matches neither the six-digit nor the three-digit
  lowercase hex pattern, the hex parser returns the validation error and no colour (the
  parser is a total function, so it does not crash). In particular this holds for any
  string that contains an uppercase letter, or whose length is neither 3 nor 6, or that
  contains a character that is no lowercase hex digit.
\<close>

theorem parseHex_rejects:
  "(\<not> hexString 6 s \<and> \<not> hexString 3 s \<longrightarrow> parseHex p s = Inl NotAHexColor)
   \<and> ((\<exists>c \<in> set s. isUpperLetter c) \<or> (length s \<noteq> 3 \<and> length s \<noteq> 6)
        \<or> (\<exists>c \<in> set s. \<not> isHexDigit c)
      \<longrightarrow> \<not> hexString 6 s \<and> \<not> hexString 3 s)"
proof (intro conjI impI)
  assume "\<not> hexString 6 s \<and> \<not> hexString 3 s"
  then show "parseHex p s = Inl NotAHexColor"
    using parseHex_neither [of s p] by (simp add: hexString_def)
next
  assume "(\<exists>c \<in> set s. isUpperLetter c) \<or> (length s \<noteq> 3 \<and> length s \<noteq> 6)
        \<or> (\<exists>c \<in> set s. \<not> isHexDigit c)"
  then have "\<not> list_all isHexDigit s \<or> (length s \<noteq> 3 \<and> length s \<noteq> 6)"
    using upper_not_hex by (auto simp: list_all_iff)
  then show "\<not> hexString 6 s" "\<not> hexString 3 s"
    by (auto simp: hexString_def)
qed

theorem parseHex_rejects_witness:
  "\<not> hexString 6 ''ABCDEF'' \<and> \<not> hexString 3 ''ABCDEF''
   \<and> parseHex Bits64 ''ABCDEF'' = Inl NotAHexColor
   \<and> isUpperLetter CHR ''A''
   \<and> parseHex Bits64 ''abcd'' = Inl NotAHexColor
   \<and> parseHex Bits64 ''xyz'' = Inl NotAHexColor"
proof -
  have u: "isUpperLetter CHR ''A''" by (simp add: isUpperLetter_def)
  have x: "\<not> isHexDigit CHR ''x''" by (simp add: isHexDigit_cases)
  show ?thesis
    using parseHex_rejects [of "''ABCDEF''" Bits64] parseHex_rejects [of "''abcd''" Bits64]
      parseHex_rejects [of "''xyz''" Bits64] u x
    by simp
qed

text \<open>The submatches the first loop of \<^verbatim>\<open>parseHex\<close> ends with.\<close>

lemma findParts_colorRegex:
  "findParts colorRegex s [] =
     (if hexString 6 s then [s, take 2 s, take 2 (drop 2 s), take 2 (drop 4 s)]
      else if hexString 3 s then [s, take 1 s, take 1 (drop 1 s), take 1 (drop 2 s)]
      else [])"
  by (simp add: colorRegex_def colorRegex_0_def colorRegex_1_def list_all_cls_hex hexString_def)

text \<open>
  Claim C10. In the hex parser, when one of the two colour patterns matched (four
  submatches), the error that the base-16 conversion of each (possibly doubled) group
  returns, and that the parser discards, is nil, and the value lies in [0, 255], so that
  narrowing it to an 8-bit channel loses nothing.
\<close>

theorem parseHex_conversion_safe:
  assumes "hexParts = findParts colorRegex str []" "length hexParts = 4" "g \<in> set (tl hexParts)"
  shows "snd (ParseInt p (doubled g) 16 0) = None
     \<and> 0 \<le> fst (ParseInt p (doubled g) 16 0)
     \<and> fst (ParseInt p (doubled g) 16 0) \<le> 255
     \<and> uint (word_of_int (fst (ParseInt p (doubled g) 16 0)) :: 8 word)
         = fst (ParseInt p (doubled g) 16 0)"
proof -
  have "\<exists>a b. doubled g = [a, b] \<and> isHexDigit a \<and> isHexDigit b"
  proof (cases "hexString 6 str")
    case True
    then have "length str = 6" by (simp add: hexString_def)
    then obtain a b c d e f where s: "str = [a, b, c, d, e, f]"
      by (rule length_6E)
    then show ?thesis
      using True assms by (auto simp: findParts_colorRegex hexString_def doubled_def)
  next
    case False
    then have h3: "hexString 3 str"
      using assms(1,2) by (auto simp: findParts_colorRegex split: if_splits)
    then have "length str = 3" by (simp add: hexString_def)
    then obtain a b c where s: "str = [a, b, c]"
      by (rule length_3E)
    then show ?thesis
      using h3 assms by (auto simp: findParts_colorRegex hexString_def doubled_def)
  qed
  then obtain a b where d: "doubled g = [a, b]" and h: "isHexDigit a" "isHexDigit b"
    by blast
  have v: "ParseInt p (doubled g) 16 0 = (int (base16 [a, b]), None)"
    unfolding d using h by (rule ParseInt_pair(1))
  have le: "base16 [a, b] \<le> 255"
    using h by (rule ParseInt_pair(2))
  have "uint (word_of_int (int (base16 [a, b])) :: 8 word) = int (base16 [a, b])"
    unfolding uint_word_of_int using le by simp
  then show ?thesis
    unfolding v using le by simp
qed

theorem parseHex_conversion_safe_witness:
  "findParts colorRegex ''f0a'' [] = [''f0a'', ''f'', ''0'', ''a'']
   \<and> doubled ''f'' = ''ff''
   \<and> ParseInt Bits32 ''ff'' 16 0 = (255, None)
   \<and> uint (word_of_int 255 :: 8 word) = 255"
proof -
  have m: "findParts colorRegex ''f0a'' [] = [''f0a'', ''f'', ''0'', ''a'']"
    by (simp add: findParts_colorRegex hexString_def isHexDigit_cases)
  have d: "doubled ''f'' = ''ff''"
    by (simp add: doubled_def)
  have v: "ParseInt Bits32 ''ff'' 16 0 = (255, None)"
    by (simp add: ParseInt_def ParseUint_def digit_of_def in_range_def)
  show ?thesis
    using parseHex_conversion_safe [of "[''f0a'', ''f'', ''0'', ''a'']" "''f0a''" "''f''" Bits32] m d v
    by simp
qed

section \<open>The size parsers\<close>

text \<open>A match consumes what it returns.\<close>

lemma number_split: "number s = Some (g, r) \<Longrightarrow> s = g @ r"
  by (cases s) (auto simp: number_def split: if_splits)

lemma sizeAt_split:
  assumes "sizeAt s = Some (m, rest)"
  shows "\<exists>g1 g2. m = [g1 @ CHR ''x'' # g2, g1, g2] \<and> s = g1 @ CHR ''x'' # g2 @ rest"
  using assms
  by (auto simp: sizeAt_def split: option.splits list.splits if_splits dest!: number_split)

text \<open>
  A match of the anchored pattern is the whole string, and the unanchored pattern finds
  the same submatches there.
\<close>

lemma sizeRegex_anchored:
  assumes "length (sizeRegex s) = 3"
  shows "sizeRegex s ! 0 = s \<and> sizeRegex_alt s = sizeRegex s"
proof -
  from assms obtain m where at: "sizeAt s = Some (m, [])" and m: "sizeRegex s = m"
    by (auto simp: sizeRegex_def split: option.splits if_splits)
  from sizeAt_split [OF at] have whole: "m ! 0 = s" by auto
  have "s \<noteq> []" using at by (auto simp: sizeAt_def number_def)
  then obtain c cs where s: "s = c # cs" by (cases s) auto
  have "sizeRegex_alt s = m" using at unfolding s by simp
  then show ?thesis using whole m by simp
qed

lemma size_examples:
  "sizeRegex ''800x600'' = [''800x600'', ''800'', ''600'']"
  "sizeRegex ''0x5'' = []"
  "sizeRegex ''10x'' = []"
  "sizeRegex ''a800x600b'' = []"
  "sizeRegex_alt ''a800x600b'' = [''800x600'', ''800'', ''600'']"
  by (simp_all add: sizeRegex_def sizeAt_def number_def cls_pos_digit_def cls_digit_def in_range_def)

lemma Atoi_examples:
  "Atoi p ''800'' = (800, None)" "Atoi p ''600'' = (600, None)"
  by (cases p; simp add: Atoi_def ParseInt_def ParseUint_def digit_of_def in_range_def)+

text \<open>
  Claim C6. The size parser maps \<^verbatim>\<open>800x600\<close> to width 800 and height 600, rejects
  \<^verbatim>\<open>0x5\<close> with a parse error (a leading zero is no positive digit sequence) and
  rejects \<^verbatim>\<open>10x\<close> with a parse error (the height is missing).
\<close>

theorem parseSize_examples:
  "parseSize p ''800x600'' = Inr \<lparr> Width = 800, Height = 600 \<rparr>
   \<and> parseSize p ''0x5'' = Inl InvalidSize
   \<and> parseSize p ''10x'' = Inl InvalidSize"
  by (simp add: parseSize_def size_examples Atoi_examples)

text \<open>
  Claim C9. The size pattern of the first revision is anchored to the whole string, that
  of the second revision is not: every string the first size parser accepts is matched as
  a whole and is accepted by the second with the same width and height, while the string
  \<^verbatim>\<open>a800x600b\<close>, which holds \<^verbatim>\<open>800x600\<close> as a proper substring, is accepted by the
  second (as 800 by 600) and rejected by the first.
\<close>

theorem size_parsers_differ:
  "(parseSize p s = Inr sz \<longrightarrow> sizeRegex s ! 0 = s \<and> main_alt_size p s = Inr sz)
   \<and> main_alt_size p ''a800x600b'' = Inr \<lparr> Width = 800, Height = 600 \<rparr>
   \<and> sizeRegex_alt ''a800x600b'' ! 0 = ''800x600''
   \<and> parseSize p ''a800x600b'' = Inl InvalidSize"
proof (intro conjI impI)
  assume ok: "parseSize p s = Inr sz"
  then have len: "length (sizeRegex s) = 3"
    by (auto simp: parseSize_def Let_def split: if_splits)
  from sizeRegex_anchored [OF len] show "sizeRegex s ! 0 = s" by simp
  from sizeRegex_anchored [OF len] have eq: "sizeRegex_alt s = sizeRegex s" by simp
  show "main_alt_size p s = Inr sz"
    using ok len unfolding parseSize_def main_alt_size_def eq Let_def
    by (auto split: prod.splits option.splits)
qed (simp_all add: parseSize_def main_alt_size_def size_examples Atoi_examples
      del: sizeRegex_alt.simps)

theorem size_parsers_differ_witness:
  "parseSize Bits64 ''12x7'' = Inr \<lparr> Width = 12, Height = 7 \<rparr>
   \<and> sizeRegex ''12x7'' ! 0 = ''12x7''
   \<and> main_alt_size Bits64 ''12x7'' = Inr \<lparr> Width = 12, Height = 7 \<rparr>"
proof -
  have r: "sizeRegex ''12x7'' = [''12x7'', ''12'', ''7'']"
    by (simp add: sizeRegex_def sizeAt_def number_def cls_pos_digit_def cls_digit_def in_range_def)
  have a: "Atoi Bits64 ''12'' = (12, None)" "Atoi Bits64 ''7'' = (7, None)"
    by (simp_all add: Atoi_def ParseInt_def ParseUint_def digit_of_def in_range_def)
  have ok: "parseSize Bits64 ''12x7'' = Inr \<lparr> Width = 12, Height = 7 \<rparr>"
    by (simp add: parseSize_def r a)
  show ?thesis
    using ok size_parsers_differ [of Bits64 "''12x7''" "\<lparr> Width = 12, Height = 7 \<rparr>"]
    by simp
qed

section \<open>The raster\<close>

text \<open>A pixel inside the rectangle has its place in the buffer.\<close>

lemma pixel_index_bound:
  fixes x y w h :: int
  assumes "0 \<le> x" "x < w" "0 \<le> y" "y < h"
  shows "0 \<le> y * w + x" and "y * w + x < w * h"
proof -
  show "0 \<le> y * w + x" using assms by simp
  have "y * w + x < y * w + w" using assms by simp
  also have "\<dots> = (y + 1) * w" by (simp add: algebra_simps)
  also have "\<dots> \<le> h * w" using assms by (intro mult_right_mono) simp_all
  finally show "y * w + x < w * h" by (simp add: mult.commute)
qed

lemma Set_pixel_inside:
  assumes "Bounds img = (0, 0, w, h)" "0 \<le> x" "x < w" "0 \<le> y" "y < h"
  shows "Set_pixel img x y c = img \<lparr> Pix := (Pix img) [nat (y * w + x) := c] \<rparr>"
  using assms by (simp add: Set_pixel_def)

text \<open>One column of the inner loop.\<close>

lemma fill_column:
  assumes "Bounds img = (0, 0, w, h)" "0 \<le> x" "x < w" "\<forall>y \<in> set ys. 0 \<le> y \<and> y < h"
  shows "Bounds (fold (\<lambda>y img. Set_pixel img x y c) ys img) = (0, 0, w, h)
     \<and> length (Pix (fold (\<lambda>y img. Set_pixel img x y c) ys img)) = length (Pix img)
     \<and> (\<forall>i < length (Pix img). Pix (fold (\<lambda>y img. Set_pixel img x y c) ys img) ! i
          = (if \<exists>y \<in> set ys. i = nat (y * w + x) then c else Pix img ! i))"
  using assms
proof (induction ys arbitrary: img)
  case Nil
  then show ?case by simp
next
  case (Cons y ys)
  define img1 where "img1 = Set_pixel img x y c"
  have y: "0 \<le> y" "y < h" using Cons.prems by simp_all
  have img1: "img1 = img \<lparr> Pix := (Pix img) [nat (y * w + x) := c] \<rparr>"
    unfolding img1_def using Cons.prems(1,2,3) y by (rule Set_pixel_inside)
  have b1: "Bounds img1 = (0, 0, w, h)" and l1: "length (Pix img1) = length (Pix img)"
    using Cons.prems(1) by (simp_all add: img1)
  have rest: "\<forall>y \<in> set ys. 0 \<le> y \<and> y < h" using Cons.prems by simp
  note IH = Cons.IH [OF b1 Cons.prems(2,3) rest]
  have n1: "Pix img1 ! i = (if i = nat (y * w + x) then c else Pix img ! i)"
    if "i < length (Pix img)" for i
    using that by (simp add: img1 nth_list_update)
  show ?case
    using IH l1 n1 by (auto simp: img1_def [symmetric])
qed

text \<open>The outer loop over the columns.\<close>

lemma fill_columns:
  assumes "Bounds img = (0, 0, w, h)" "\<forall>x \<in> set xs. 0 \<le> x \<and> x < w" "\<forall>y \<in> set ys. 0 \<le> y \<and> y < h"
  shows "Bounds (fold (\<lambda>x img. fold (\<lambda>y img. Set_pixel img x y c) ys img) xs img) = (0, 0, w, h)
     \<and> length (Pix (fold (\<lambda>x img. fold (\<lambda>y img. Set_pixel img x y c) ys img) xs img))
          = length (Pix img)
     \<and> (\<forall>i < length (Pix img).
          Pix (fold (\<lambda>x img. fold (\<lambda>y img. Set_pixel img x y c) ys img) xs img) ! i
          = (if \<exists>x \<in> set xs. \<exists>y \<in> set ys. i = nat (y * w + x) then c else Pix img ! i))"
  using assms
proof (induction xs arbitrary: img)
  case Nil
  then show ?case by simp
next
  case (Cons x xs)
  define img1 where "img1 = fold (\<lambda>y img. Set_pixel img x y c) ys img"
  have x: "0 \<le> x" "x < w" using Cons.prems by simp_all
  note col = fill_column [OF Cons.prems(1) x Cons.prems(3), of c, folded img1_def]
  have b1: "Bounds img1 = (0, 0, w, h)" and l1: "length (Pix img1) = length (Pix img)"
    using col by simp_all
  have rest: "\<forall>x \<in> set xs. 0 \<le> x \<and> x < w" using Cons.prems by simp
  note IH = Cons.IH [OF b1 rest Cons.prems(3)]
  show ?case
    using IH l1 col by (auto simp: img1_def [symmetric])
qed

text \<open>The two loops reach every place of the buffer.\<close>

lemma every_pixel_reached:
  fixes w h :: int
  assumes "0 \<le> w" "0 \<le> h" "i < nat (w * h)"
  shows "\<exists>x \<in> set [0 .. w - 1]. \<exists>y \<in> set [0 .. h - 1]. i = nat (y * w + x)"
proof -
  have wpos: "0 < w"
    using assms by (cases "w = 0") auto
  define x where "x = int i mod w"
  define y where "y = int i div w"
  have i: "int i < w * h" using assms by linarith
  have x: "0 \<le> x" "x < w" using wpos by (simp_all add: x_def)
  have y0: "0 \<le> y" using wpos by (simp add: y_def pos_imp_zdiv_nonneg_iff)
  have "y * w + x = int i" by (simp add: x_def y_def)
  moreover have "y < h"
  proof (rule ccontr)
    assume "\<not> y < h"
    then have "h \<le> y" by simp
    then have "h * w \<le> y * w" using wpos by (intro mult_right_mono) simp_all
    also have "\<dots> \<le> y * w + x" using x by simp
    also have "\<dots> = int i" by fact
    also have "\<dots> < w * h" by (rule i)
    finally show False by (simp add: mult.commute)
  qed
  ultimately show ?thesis
    using x y0 by (intro bexI [of _ x] bexI [of _ y]) auto
qed

text \<open>
  After the two loops of \<^verbatim>\<open>generateImage\<close> the raster is the flat raster of the colour.
\<close>

lemma fill_flat:
  assumes "0 \<le> Width s" "0 \<le> Height s"
    and "NewRGBA p oom (Rect 0 0 (Width s) (Height s)) w = Return img0 w0"
  shows "fill img0 s c = flatRaster s c"
proof -
  have r: "Rect 0 0 (Width s) (Height s) = (0, 0, Width s, Height s)"
    using assms(1,2) by (simp add: Rect_def)
  have img0: "img0 = \<lparr> Bounds = (0, 0, Width s, Height s),
      Pix = replicate (nat (Width s * Height s)) \<lparr> R = 0, G = 0, B = 0, A = 0 \<rparr> \<rparr>"
    using assms(3) unfolding r by (simp add: NewRGBA_def split: if_splits)
  have b: "Bounds img0 = (0, 0, Width s, Height s)"
    and l: "length (Pix img0) = nat (Width s * Height s)"
    by (simp_all add: img0)
  have xs: "\<forall>x \<in> set [0 .. Width s - 1]. 0 \<le> x \<and> x < Width s"
    and ys: "\<forall>y \<in> set [0 .. Height s - 1]. 0 \<le> y \<and> y < Height s"
    by auto
  note f = fill_columns [OF b xs ys, of c, folded fill_def]
  have "Pix (fill img0 s c) = replicate (nat (Width s * Height s)) c"
  proof (rule nth_equalityI)
    show "length (Pix (fill img0 s c)) = length (replicate (nat (Width s * Height s)) c)"
      using f l by simp
  next
    fix i assume "i < length (Pix (fill img0 s c))"
    then have i: "i < nat (Width s * Height s)" using f l by simp
    from every_pixel_reached [OF assms(1,2) i]
    show "Pix (fill img0 s c) ! i = replicate (nat (Width s * Height s)) c ! i"
      using f l i by simp
  qed
  moreover have "Bounds (fill img0 s c) = (0, 0, Width s, Height s)"
    using f by simp
  ultimately show ?thesis
    by (simp add: flatRaster_def)
qed

section \<open>The parsed size\<close>





section \<open>Writing the image file\<close>

text \<open>A write at the start of a file keeps the bytes of the file beyond its own length.\<close>

lemma write_at_start: "write_at old 0 bs = bs @ drop (length bs) old"
  by (simp add: write_at_def)

text \<open>A raster that fits is allocated, and the loops fill it.\<close>

lemma NewRGBA_flat:
  assumes "0 \<le> Width s" "0 \<le> Height s"
    and "4 * Width s * Height s \<le> maxInt p" "4 * Width s * Height s \<le> maxAlloc p"
  shows "\<exists>img0. NewRGBA p False (Rect 0 0 (Width s) (Height s)) w = Return img0 w
      \<and> fill img0 s c = flatRaster s c"
proof -
  have r: "Rect 0 0 (Width s) (Height s) = (0, 0, Width s, Height s)"
    using assms(1,2) by (simp add: Rect_def)
  obtain img0 where n: "NewRGBA p False (Rect 0 0 (Width s) (Height s)) w = Return img0 w"
    using assms(3,4) unfolding r by (simp add: NewRGBA_def)
  from fill_flat [OF assms(1,2) n] n show ?thesis by blast
qed

lemma generateImage_opened:
  assumes "parseHex p hex = Inr c"
    and "0 \<le> Width s" "0 \<le> Height s"
    and "4 * Width s * Height s \<le> maxInt p" "4 * Width s * Height s \<le> maxAlloc p"
    and "faults e (Name c @ ''.png'') \<noteq> Some AllocFails"
  shows "generateImage p e hex s w =
     (case OpenFile e (Name c @ ''.png'') w of
        (Inl err, w1) \<Rightarrow> Return (Some err) w1
      | (Inr f, w1) \<Rightarrow>
          (case Encode e f (flatRaster s (Color c)) w1 of
             (r, w2) \<Rightarrow>
               (case Close (File_Close e f) w2 of
                  Return u w3 \<Rightarrow> Return r w3
                | Exit code w3 \<Rightarrow> Exit code w3
                | Panic w3 \<Rightarrow> Panic w3)))"
proof -
  from NewRGBA_flat [OF assms(2-5), of w "Color c"]
  obtain img0 where "NewRGBA p False (Rect 0 0 (Width s) (Height s)) w = Return img0 w"
    and "fill img0 s (Color c) = flatRaster s (Color c)"
    by blast
  then show ?thesis
    using assms(1,6) by (simp add: generateImage_def)
qed

text \<open>
  What a successful run of the generator leaves in the file, in both revisions: the new
  encoding, followed by the bytes of an older file of that name beyond its length.
\<close>

lemma generateImage_writes:
  assumes "parseHex p hex = Inr c"
    and "0 \<le> Width s" "0 \<le> Height s"
    and "4 * Width s * Height s \<le> maxInt p" "4 * Width s * Height s \<le> maxAlloc p"
    and "png e (flatRaster s (Color c)) = Inr bs"
    and "faults e (Name c @ ''.png'') = None"
  shows "generateImage p e hex s w =
     Return None (w \<lparr> files := (files w) (Name c @ ''.png'' :=
        Some (written bs (files w (Name c @ ''.png'')))) \<rparr>)"
proof -
  have a: "faults e (Name c @ ''.png'') \<noteq> Some AllocFails" using assms(7) by simp
  show ?thesis
    unfolding generateImage_opened [OF assms(1-5) a]
    using assms(6,7)
    by (cases "files w (Name c @ ''.png'')")
      (simp_all add: OpenFile_def Encode_def Write_def File_Close_def Close_def
        write_at_start written_def)
qed

lemma generateImage_alt_writes:
  assumes "parseHex p (TrimLeft rawHex ''#'') = Inr c"
    and "0 \<le> Width s" "0 \<le> Height s"
    and "4 * Width s * Height s \<le> maxInt p" "4 * Width s * Height s \<le> maxAlloc p"
    and "png e (flatRaster s (Color c)) = Inr bs"
    and "faults e (Name c @ ''.png'') = None"
  shows "generateImage_alt p e rawHex s w =
     Return () (print (Mapping rawHex (Name c @ ''.png''))
       (w \<lparr> files := (files w) (Name c @ ''.png'' :=
        Some (written bs (files w (Name c @ ''.png'')))) \<rparr>))"
proof -
  from NewRGBA_flat [OF assms(2-5), of w "Color c"]
  obtain img0 where "NewRGBA p False (Rect 0 0 (Width s) (Height s)) w = Return img0 w"
    and "fill img0 s (Color c) = flatRaster s (Color c)"
    by blast
  then show ?thesis
    using assms(1,6,7)
    by (cases "files w (Name c @ ''.png'')")
      (simp_all add: generateImage_alt_def OpenFile_def Encode_def Write_def write_at_start
        written_def Let_def)
qed

section \<open>An older file of the same name\<close>

lemma parseHex_ffffff:
  "parseHex p ''ffffff'' = Inr \<lparr> Color = \<lparr> R = 255, G = 255, B = 255, A = 255 \<rparr>, Name = ''ffffff'' \<rparr>"
proof -
  have hex: "list_all isHexDigit ''ffffff''" by (simp add: isHexDigit_cases)
  show ?thesis
    unfolding parseHex_long [OF hex] by (simp add: base16_def hexValue_def hexDigits_def)
qed

text \<open>
  Both revisions on the line \<^verbatim>\<open>ffffff\<close>, at size 1x1, in a directory that holds a file
  \<^verbatim>\<open>ffffff.png\<close> with the bytes \<^verbatim>\<open>old\<close>, where the encoder yields the bytes
  \<^verbatim>\<open>bs\<close> and no operation fails.
\<close>

lemma overwrite_ffffff:
  assumes e: "e = \<lparr> png = (\<lambda>img. Inr bs), faults = (\<lambda>name. None), inputCloseFails = False \<rparr>"
    and w: "w = \<lparr> files = (\<lambda>name. if name = ''ffffff.png'' then Some old else None), stdout = [] \<rparr>"
    and s: "s = \<lparr> Width = 1, Height = 1 \<rparr>"
  shows "generateImage p e ''ffffff'' s w = Return None
      \<lparr> files = (\<lambda>name. if name = ''ffffff.png'' then Some (bs @ drop (length bs) old) else None),
        stdout = [] \<rparr>"
    and "generateImage_alt p e ''#ffffff'' s w = Return ()
      \<lparr> files = (\<lambda>name. if name = ''ffffff.png'' then Some (bs @ drop (length bs) old) else None),
        stdout = [Mapping ''#ffffff'' ''ffffff.png''] \<rparr>"
proof -
  have sz: "0 \<le> Width s" "0 \<le> Height s"
    "4 * Width s * Height s \<le> maxInt p" "4 * Width s * Height s \<le> maxAlloc p"
    by (cases p; simp add: maxInt_def s)+
  have enc: "png e (flatRaster s (Color c)) = Inr bs" for c
    by (simp add: e)
  have flt: "faults e name = None" for name
    by (simp add: e)
  have t: "TrimLeft ''#ffffff'' ''#'' = ''ffffff''"
    by (simp add: TrimLeft_def)
  have ph: "parseHex p (TrimLeft ''#ffffff'' ''#'')
      = Inr \<lparr> Color = \<lparr> R = 255, G = 255, B = 255, A = 255 \<rparr>, Name = ''ffffff'' \<rparr>"
    unfolding t by (rule parseHex_ffffff)
  show "generateImage p e ''ffffff'' s w = Return None
      \<lparr> files = (\<lambda>name. if name = ''ffffff.png'' then Some (bs @ drop (length bs) old) else None),
        stdout = [] \<rparr>"
    unfolding generateImage_writes [OF parseHex_ffffff sz enc flt]
    by (simp add: w fun_eq_iff written_def)
  show "generateImage_alt p e ''#ffffff'' s w = Return ()
      \<lparr> files = (\<lambda>name. if name = ''ffffff.png'' then Some (bs @ drop (length bs) old) else None),
        stdout = [Mapping ''#ffffff'' ''ffffff.png''] \<rparr>"
    unfolding generateImage_alt_writes [OF ph sz enc flt]
    by (simp add: w print_def fun_eq_iff written_def)
qed

text \<open>
  Claim C7 says that the generator truncates or creates the file
  \<^verbatim>\<open><canonical-hex>.png\<close>, so that no byte of an older file of that name remains after
  the write. The code opens the file with \<^verbatim>\<open>os.O_WRONLY|os.O_CREATE\<close>, without
  \<^verbatim>\<open>os.O_TRUNC\<close>: in both revisions the file afterwards holds the new encoding
  \<^verbatim>\<open>bs\<close> followed by the bytes of the older file beyond the length of \<^verbatim>\<open>bs\<close>. With
  a four-byte encoding and an older file of six bytes, the last two old bytes remain.
\<close>

theorem generateImage_keeps_old_bytes:
  "generateImage p \<lparr> png = (\<lambda>img. Inr bs), faults = (\<lambda>name. None), inputCloseFails = False \<rparr>
      ''ffffff'' \<lparr> Width = 1, Height = 1 \<rparr>
      \<lparr> files = (\<lambda>name. if name = ''ffffff.png'' then Some old else None), stdout = [] \<rparr>
    = Return None
      \<lparr> files = (\<lambda>name. if name = ''ffffff.png'' then Some (bs @ drop (length bs) old) else None),
        stdout = [] \<rparr>
   \<and> generateImage_alt p \<lparr> png = (\<lambda>img. Inr bs), faults = (\<lambda>name. None), inputCloseFails = False \<rparr>
      ''#ffffff'' \<lparr> Width = 1, Height = 1 \<rparr>
      \<lparr> files = (\<lambda>name. if name = ''ffffff.png'' then Some old else None), stdout = [] \<rparr>
    = Return ()
      \<lparr> files = (\<lambda>name. if name = ''ffffff.png'' then Some (bs @ drop (length bs) old) else None),
        stdout = [Mapping ''#ffffff'' ''ffffff.png''] \<rparr>
   \<and> generateImage p
      \<lparr> png = (\<lambda>img. Inr [137, 80, 78, 71]), faults = (\<lambda>name. None), inputCloseFails = False \<rparr>
      ''ffffff'' \<lparr> Width = 1, Height = 1 \<rparr>
      \<lparr> files = (\<lambda>name. if name = ''ffffff.png'' then Some [1, 2, 3, 4, 5, 6] else None),
        stdout = [] \<rparr>
    = Return None
      \<lparr> files = (\<lambda>name. if name = ''ffffff.png'' then Some [137, 80, 78, 71, 5, 6] else None),
        stdout = [] \<rparr>"
  using overwrite_ffffff [OF refl refl refl, of p bs old]
    overwrite_ffffff(1) [OF refl refl refl, of p "[137, 80, 78, 71]" "[1, 2, 3, 4, 5, 6]"]
  by (simp cong: if_cong)

section \<open>One line of the main loop\<close>






section \<open>The scanner\<close>


section \<open>The main loop\<close>






section \<open>Skipping, counting and the exit code\<close>








section \<open>Runs that the claim as stated does not cover\<close>


















end
